theory Spec2Isabelle
  imports Main "HOL-Library.Multiset"
begin

section \<open>Values handled by the task orchestrator\<close>

text \<open>
  The orchestrator (\<^verbatim>\<open>services/agent_service.py\<close>, class \<^verbatim>\<open>AgentService\<close>) keeps tasks as
  Python dictionaries in two lists, \<^verbatim>\<open>active_tasks\<close> and \<^verbatim>\<open>task_history\<close>, each mirrored
  by a JSON file.  A time field of a dictionary holds either a \<^verbatim>\<open>datetime\<close> object or, once
  it has been serialised, a \<^verbatim>\<open>str\<close>; the model keeps that distinction, because the code
  calls \<^verbatim>\<open>.isoformat()\<close> on the field and that method exists on the former only.

  A \<^verbatim>\<open>datetime\<close> is modelled as a count of clock ticks and its ISO text as the decimal
  numeral of the count; what the model needs of the library pair
  \<^verbatim>\<open>isoformat\<close>/\<^verbatim>\<open>fromisoformat\<close> is that the second inverts the first.
\<close>

type_synonym datetime = nat

datatype tsval = Datetime datetime | IsoString string

text \<open>
  An exception that a caller may turn into text carries that text, \<^verbatim>\<open>str(e)\<close>, with its
  class.  \<^verbatim>\<open>CompletionError\<close> is whatever the completion client raises.
\<close>

datatype error =
    AttributeError string
  | TypeError string
  | OSError string
  | CompletionError string

fun error_text :: "error \<Rightarrow> string" where
  "error_text (AttributeError m) = m"
| "error_text (TypeError m) = m"
| "error_text (OSError m) = m"
| "error_text (CompletionError m) = m"

text \<open>The messages of the exceptions that the interpreter and \<^verbatim>\<open>json.dump\<close> raise here.\<close>

definition no_isoformat :: error where
  "no_isoformat =
     AttributeError
       (CHR 0x27 # ''str'' @ CHR 0x27 # '' object has no attribute '' @
        CHR 0x27 # ''isoformat'' @ [CHR 0x27])"

definition not_serializable :: error where
  "not_serializable = TypeError ''Object of type datetime is not JSON serializable''"

definition bad_list_index :: error where
  "bad_list_index = TypeError ''list indices must be integers or slices, not str''"

definition fromisoformat_not_str :: error where
  "fromisoformat_not_str = TypeError ''fromisoformat: argument must be str''"

text \<open>
  What ends the \<^verbatim>\<open>try\<close> block of a loader.  The handlers of the loaders only log: the text
  of a \<^verbatim>\<open>JSONDecodeError\<close> or of the \<^verbatim>\<open>ValueError\<close> of \<^verbatim>\<open>fromisoformat\<close> goes nowhere
  else, and these two are kept by their class.
\<close>

datatype load_error = JSONDecodeError | ValueError | Raised error

subsection \<open>Decimal numerals: \<^verbatim>\<open>str(n)\<close> and its inverse\<close>

definition digit_char :: "nat \<Rightarrow> char" where
  "digit_char d = char_of (48 + d)"

definition digit_val :: "char \<Rightarrow> nat" where
  "digit_val c = of_char c - 48"

definition is_digit :: "char \<Rightarrow> bool" where
  "is_digit c = (48 \<le> (of_char c :: nat) \<and> (of_char c :: nat) \<le> 57)"

fun string_of_nat :: "nat \<Rightarrow> string" where
  "string_of_nat n =
     (if n < 10 then [digit_char n] else string_of_nat (n div 10) @ [digit_char (n mod 10)])"

declare string_of_nat.simps [simp del]

definition nat_of_string :: "string \<Rightarrow> nat" where
  "nat_of_string s = foldl (\<lambda>acc c. 10 * acc + digit_val c) 0 s"

definition isoformat :: "datetime \<Rightarrow> string" where
  "isoformat d = string_of_nat d"

definition fromisoformat :: "string \<Rightarrow> datetime option" where
  "fromisoformat s = (if s \<noteq> [] \<and> list_all is_digit s then Some (nat_of_string s) else None)"

subsection \<open>Results, steps and tasks\<close>

text \<open>
  The three dictionaries the code returns as a result: \<^verbatim>\<open>{"status": "success", "result": r}\<close>,
  \<^verbatim>\<open>{"status": "error", "error": e}\<close> and the outcome of a completed task
  \<^verbatim>\<open>{"status": "success", "task_id": id, "message": ...}\<close>.
\<close>

datatype result = StepSuccess string | ErrorResult string | TaskSuccess string

fun result_status :: "result \<Rightarrow> string" where
  "result_status (StepSuccess r) = ''success''"
| "result_status (ErrorResult e) = ''error''"
| "result_status (TaskSuccess i) = ''success''"

type_synonym ctx = "(string \<times> string) list"

record step =
  step_id :: string
  step_type :: "string option"
  step_description :: "string option"
  step_status :: string
  step_result :: "result option"
  step_created_at :: "tsval option"
  step_updated_at :: "tsval option"

record task =
  task_id :: string
  task_description :: string
  task_context :: ctx
  task_status :: string
  task_steps :: "step list"
  created_at :: "tsval option"
  updated_at :: "tsval option"
  completed_at :: "tsval option"

subsection \<open>The two backing files and the orchestrator state\<close>

text \<open>
  A file holds a JSON array of task objects (whose time fields are then strings), text that
  \<^verbatim>\<open>json.load\<close> rejects, or the unfinished output of a \<^verbatim>\<open>json.dump\<close> that raised after
  the file had been opened for writing (an opening bracket without its end, or nothing:
  rejected by \<^verbatim>\<open>json.load\<close> as well).  \<^verbatim>\<open>backup_file\<close> is \<^verbatim>\<open>active_tasks.json.bak\<close>.
  The last two fields say what \<^verbatim>\<open>open(file, 'w')\<close> does: \<open>None\<close> when it opens the file,
  the text of the \<^verbatim>\<open>OSError\<close> when it raises.
\<close>

datatype fcontent = JsonTasks "task list" | Corrupt string | Partial

record disk =
  history_file :: "fcontent option"
  tasks_file :: "fcontent option"
  backup_file :: "fcontent option"
  history_open_error :: "string option"
  tasks_open_error :: "string option"

record world =
  active_tasks :: "task list"
  task_history :: "task list"
  fs :: disk
  clock :: nat

text \<open>\<^verbatim>\<open>datetime.now()\<close>: reads the clock, which then moves on.\<close>

definition now :: "world \<Rightarrow> datetime \<times> world" where
  "now w = (clock w, w\<lparr>clock := Suc (clock w)\<rparr>)"

fun json_load :: "fcontent \<Rightarrow> load_error + task list" where
  "json_load (JsonTasks ts) = Inr ts"
| "json_load (Corrupt s) = Inl JSONDecodeError"
| "json_load Partial = Inl JSONDecodeError"

section \<open>The task store: saving and loading\<close>

subsection \<open>\<^verbatim>\<open>_save_active_tasks\<close> (lines 149--179)\<close>

text \<open>
  \<^verbatim>\<open>x['created_at'] = x['created_at'].isoformat()\<close>, guarded by \<^verbatim>\<open>'created_at' in x\<close>:
  an absent key is skipped, a \<^verbatim>\<open>datetime\<close> becomes its text, and a \<^verbatim>\<open>str\<close> has no
  method \<^verbatim>\<open>isoformat\<close>.
\<close>

fun isoformat_field :: "tsval option \<Rightarrow> error + tsval option" where
  "isoformat_field None = Inr None"
| "isoformat_field (Some (Datetime d)) = Inr (Some (IsoString (isoformat d)))"
| "isoformat_field (Some (IsoString s)) = Inl no_isoformat"

text \<open>
  \<^verbatim>\<open>task.copy()\<close> is a shallow copy: the step dictionaries of the copy are the ones in
  memory, so the inner loop rewrites the time fields of the steps in memory.  The functions
  return whether the loop got through and the steps (the task) as they are in memory afterwards.
\<close>

definition save_step :: "step \<Rightarrow> bool \<times> step" where
  "save_step st =
     (case isoformat_field (step_created_at st) of
        Inl e \<Rightarrow> (False, st)
      | Inr c \<Rightarrow>
          (let st1 = st\<lparr>step_created_at := c\<rparr> in
           case isoformat_field (step_updated_at st1) of
             Inl e \<Rightarrow> (False, st1)
           | Inr u \<Rightarrow> (True, st1\<lparr>step_updated_at := u\<rparr>)))"

fun save_steps :: "step list \<Rightarrow> bool \<times> step list" where
  "save_steps [] = (True, [])"
| "save_steps (st # sts) =
     (case save_step st of
        (False, st') \<Rightarrow> (False, st' # sts)
      | (True, st') \<Rightarrow> (case save_steps sts of (ok, sts') \<Rightarrow> (ok, st' # sts')))"

text \<open>
  One round of the outer loop: the entry appended to \<^verbatim>\<open>tasks_data\<close> (or the exception)
  and the task as it is in memory afterwards.
\<close>

definition save_active_task :: "task \<Rightarrow> (error + task) \<times> task" where
  "save_active_task t =
     (case isoformat_field (created_at t) of
        Inl e \<Rightarrow> (Inl e, t)
      | Inr c \<Rightarrow>
          (case isoformat_field (updated_at t) of
             Inl e \<Rightarrow> (Inl e, t)
           | Inr u \<Rightarrow>
               (case save_steps (task_steps t) of
                  (ok, sts') \<Rightarrow>
                    (let t' = t\<lparr>task_steps := sts'\<rparr> in
                     (if ok then Inr (t'\<lparr>created_at := c, updated_at := u\<rparr>)
                      else Inl no_isoformat, t')))))"

fun save_active_loop :: "task list \<Rightarrow> (error + task list) \<times> task list" where
  "save_active_loop [] = (Inr [], [])"
| "save_active_loop (t # ts) =
     (case save_active_task t of
        (Inl e, t') \<Rightarrow> (Inl e, t' # ts)
      | (Inr c, t') \<Rightarrow>
          (case save_active_loop ts of
             (Inl e, ts') \<Rightarrow> (Inl e, t' # ts')
           | (Inr cs, ts') \<Rightarrow> (Inr (c # cs), t' # ts')))"

text \<open>\<^verbatim>\<open>json.dump\<close> raises \<^verbatim>\<open>TypeError\<close> on a \<^verbatim>\<open>datetime\<close> anywhere in its argument.\<close>

fun ts_serializable :: "tsval option \<Rightarrow> bool" where
  "ts_serializable (Some (Datetime d)) = False"
| "ts_serializable v = True"

definition step_serializable :: "step \<Rightarrow> bool" where
  "step_serializable st =
     (ts_serializable (step_created_at st) \<and> ts_serializable (step_updated_at st))"

definition task_serializable :: "task \<Rightarrow> bool" where
  "task_serializable t =
     (ts_serializable (created_at t) \<and> ts_serializable (updated_at t) \<and>
      ts_serializable (completed_at t) \<and> list_all step_serializable (task_steps t))"

definition json_serializable :: "task list \<Rightarrow> bool" where
  "json_serializable ts = list_all task_serializable ts"

text \<open>
  \<^verbatim>\<open>with open(file, 'w') as f: json.dump(data, f, indent=2)\<close>, on one of the two files:
  opening may fail and leaves the file as it was; a dump that raises leaves it unfinished.
\<close>

definition write_tasks_file :: "task list \<Rightarrow> disk \<Rightarrow> (error + unit) \<times> disk" where
  "write_tasks_file data d =
     (case tasks_open_error d of
        Some m \<Rightarrow> (Inl (OSError m), d)
      | None \<Rightarrow>
          (if \<not> json_serializable data then (Inl not_serializable, d\<lparr>tasks_file := Some Partial\<rparr>)
           else (Inr (), d\<lparr>tasks_file := Some (JsonTasks data)\<rparr>)))"

definition write_history_file :: "task list \<Rightarrow> disk \<Rightarrow> (error + unit) \<times> disk" where
  "write_history_file data d =
     (case history_open_error d of
        Some m \<Rightarrow> (Inl (OSError m), d)
      | None \<Rightarrow>
          (if \<not> json_serializable data then (Inl not_serializable, d\<lparr>history_file := Some Partial\<rparr>)
           else (Inr (), d\<lparr>history_file := Some (JsonTasks data)\<rparr>)))"

text \<open>The handler of \<^verbatim>\<open>_save_active_tasks\<close> logs and re-raises (line 179).\<close>

definition save_active_tasks :: "world \<Rightarrow> (error + unit) \<times> world" where
  "save_active_tasks w =
     (case save_active_loop (active_tasks w) of
        (Inl e, ts') \<Rightarrow> (Inl e, w\<lparr>active_tasks := ts'\<rparr>)
      | (Inr data, ts') \<Rightarrow>
          (case write_tasks_file data (fs w) of
             (r, d') \<Rightarrow> (r, w\<lparr>active_tasks := ts', fs := d'\<rparr>)))"

subsection \<open>\<^verbatim>\<open>_save_task_history\<close> (lines 81--106)\<close>

text \<open>Only the three task-level time fields are converted, on the copy; steps are not visited.\<close>

definition save_history_task :: "task \<Rightarrow> error + task" where
  "save_history_task t =
     (case isoformat_field (created_at t) of
        Inl e \<Rightarrow> Inl e
      | Inr c \<Rightarrow>
          (case isoformat_field (completed_at t) of
             Inl e \<Rightarrow> Inl e
           | Inr k \<Rightarrow>
               (case isoformat_field (updated_at t) of
                  Inl e \<Rightarrow> Inl e
                | Inr u \<Rightarrow> Inr (t\<lparr>created_at := c, completed_at := k, updated_at := u\<rparr>))))"

fun save_history_loop :: "task list \<Rightarrow> error + task list" where
  "save_history_loop [] = Inr []"
| "save_history_loop (t # ts) =
     (case save_history_task t of
        Inl e \<Rightarrow> Inl e
      | Inr c \<Rightarrow> (case save_history_loop ts of Inl e \<Rightarrow> Inl e | Inr cs \<Rightarrow> Inr (c # cs)))"

text \<open>The body of the \<^verbatim>\<open>try\<close> block, with the exception it may end in.\<close>

definition save_task_history_body :: "world \<Rightarrow> (error + unit) \<times> world" where
  "save_task_history_body w =
     (case save_history_loop (task_history w) of
        Inl e \<Rightarrow> (Inl e, w)
      | Inr data \<Rightarrow>
          (case write_history_file data (fs w) of (r, d') \<Rightarrow> (r, w\<lparr>fs := d'\<rparr>)))"

text \<open>The handler (lines 105--106) logs the exception and returns normally.\<close>

definition save_task_history :: "world \<Rightarrow> (error + unit) \<times> world" where
  "save_task_history w =
     (case save_task_history_body w of
        (Inl e, w') \<Rightarrow> (Inr (), w')
      | (Inr u, w') \<Rightarrow> (Inr (), w'))"

subsection \<open>\<^verbatim>\<open>_load_active_tasks\<close> (lines 108--147) and \<^verbatim>\<open>_load_task_history\<close> (lines 49--79)\<close>

text \<open>
  \<^verbatim>\<open>x['created_at'] = datetime.fromisoformat(x['created_at'])\<close>, guarded by the key test.
  JSON has no \<^verbatim>\<open>datetime\<close>, so the last equation is for completeness of the type.
\<close>

fun fromisoformat_field :: "tsval option \<Rightarrow> load_error + tsval option" where
  "fromisoformat_field None = Inr None"
| "fromisoformat_field (Some (IsoString s)) =
     (case fromisoformat s of None \<Rightarrow> Inl ValueError | Some d \<Rightarrow> Inr (Some (Datetime d)))"
| "fromisoformat_field (Some (Datetime d)) = Inl (Raised fromisoformat_not_str)"

text \<open>The active loader converts \<^verbatim>\<open>created_at\<close> and \<^verbatim>\<open>updated_at\<close> of each task, nothing else.\<close>

definition load_active_task :: "task \<Rightarrow> load_error + task" where
  "load_active_task t =
     (case fromisoformat_field (created_at t) of
        Inl e \<Rightarrow> Inl e
      | Inr c \<Rightarrow>
          (case fromisoformat_field (updated_at t) of
             Inl e \<Rightarrow> Inl e
           | Inr u \<Rightarrow> Inr (t\<lparr>created_at := c, updated_at := u\<rparr>)))"

fun load_active_loop :: "task list \<Rightarrow> load_error + task list" where
  "load_active_loop [] = Inr []"
| "load_active_loop (t # ts) =
     (case load_active_task t of
        Inl e \<Rightarrow> Inl e
      | Inr c \<Rightarrow> (case load_active_loop ts of Inl e \<Rightarrow> Inl e | Inr cs \<Rightarrow> Inr (c # cs)))"

definition load_history_task :: "task \<Rightarrow> load_error + task" where
  "load_history_task t =
     (case fromisoformat_field (created_at t) of
        Inl e \<Rightarrow> Inl e
      | Inr c \<Rightarrow>
          (case fromisoformat_field (completed_at t) of
             Inl e \<Rightarrow> Inl e
           | Inr k \<Rightarrow>
               (case fromisoformat_field (updated_at t) of
                  Inl e \<Rightarrow> Inl e
                | Inr u \<Rightarrow> Inr (t\<lparr>created_at := c, completed_at := k, updated_at := u\<rparr>))))"

fun load_history_loop :: "task list \<Rightarrow> load_error + task list" where
  "load_history_loop [] = Inr []"
| "load_history_loop (t # ts) =
     (case load_history_task t of
        Inl e \<Rightarrow> Inl e
      | Inr c \<Rightarrow> (case load_history_loop ts of Inl e \<Rightarrow> Inl e | Inr cs \<Rightarrow> Inr (c # cs)))"

text \<open>
  The inner handler of the active loader (lines 129--138): empty list, rename to the
  backup, write a new empty file.  An exception of that write reaches the outer handler.
\<close>

definition recover_active_tasks :: "fcontent \<Rightarrow> world \<Rightarrow> (error + unit) \<times> world" where
  "recover_active_tasks c w =
     (let w1 = w\<lparr>active_tasks := []\<rparr>;
          d1 = (fs w1)\<lparr>backup_file := Some c, tasks_file := None\<rparr> in
      case write_tasks_file [] d1 of (r, d2) \<Rightarrow> (r, w1\<lparr>fs := d2\<rparr>))"

text \<open>An exception of a write that reaches the handler of a loader.\<close>

definition raised :: "(error + 'a) \<times> 'w \<Rightarrow> (load_error + 'a) \<times> 'w" where
  "raised x = (case x of (Inl e, w) \<Rightarrow> (Inl (Raised e), w) | (Inr u, w) \<Rightarrow> (Inr u, w))"

definition load_active_tasks_body :: "world \<Rightarrow> (load_error + unit) \<times> world" where
  "load_active_tasks_body w =
     (case tasks_file (fs w) of
        Some c \<Rightarrow>
          (case json_load c of
             Inl JSONDecodeError \<Rightarrow> raised (recover_active_tasks c w)
           | Inl e \<Rightarrow> (Inl e, w)
           | Inr data \<Rightarrow>
               (case load_active_loop data of
                  Inl e \<Rightarrow> (Inl e, w)
                | Inr ts \<Rightarrow> (Inr (), w\<lparr>active_tasks := ts\<rparr>)))
      | None \<Rightarrow>
          (let w1 = w\<lparr>active_tasks := []\<rparr> in
           case write_tasks_file [] (fs w1) of (r, d') \<Rightarrow> raised (r, w1\<lparr>fs := d'\<rparr>)))"

text \<open>The outer handler (lines 145--147) logs, empties the list and returns normally.\<close>

definition load_active_tasks :: "world \<Rightarrow> (error + unit) \<times> world" where
  "load_active_tasks w =
     (case load_active_tasks_body w of
        (Inl e, w') \<Rightarrow> (Inr (), w'\<lparr>active_tasks := []\<rparr>)
      | (Inr u, w') \<Rightarrow> (Inr (), w'))"

text \<open>
  The history loader has the outer handler only: a \<^verbatim>\<open>JSONDecodeError\<close> of
  \<^verbatim>\<open>json.load\<close> goes to it like any other exception.
\<close>

definition load_task_history_body :: "world \<Rightarrow> (load_error + unit) \<times> world" where
  "load_task_history_body w =
     (case history_file (fs w) of
        Some c \<Rightarrow>
          (case json_load c of
             Inl e \<Rightarrow> (Inl e, w)
           | Inr data \<Rightarrow>
               (case load_history_loop data of
                  Inl e \<Rightarrow> (Inl e, w)
                | Inr ts \<Rightarrow> (Inr (), w\<lparr>task_history := ts\<rparr>)))
      | None \<Rightarrow>
          (let w1 = w\<lparr>task_history := []\<rparr> in
           case write_history_file [] (fs w1) of (r, d') \<Rightarrow> raised (r, w1\<lparr>fs := d'\<rparr>)))"

definition load_task_history :: "world \<Rightarrow> (error + unit) \<times> world" where
  "load_task_history w =
     (case load_task_history_body w of
        (Inl e, w') \<Rightarrow> (Inr (), w'\<lparr>task_history := []\<rparr>)
      | (Inr u, w') \<Rightarrow> (Inr (), w'))"

section \<open>The orchestrator\<close>

subsection \<open>Lookup, archival and the two status updates\<close>

definition has_id :: "string \<Rightarrow> task \<Rightarrow> bool" where
  "has_id tid t = (task_id t = tid)"

text \<open>\<^verbatim>\<open>get_task\<close> (lines 268--280): the active list first, then the history.\<close>

definition get_task :: "string \<Rightarrow> world \<Rightarrow> task option" where
  "get_task tid w =
     (case find (has_id tid) (active_tasks w) of
        Some t \<Rightarrow> Some t
      | None \<Rightarrow> find (has_id tid) (task_history w))"

text \<open>
  A dictionary found by a search loop is changed in place; in the model the first element
  that the search accepts is replaced.
\<close>

fun update_first :: "('a \<Rightarrow> bool) \<Rightarrow> ('a \<Rightarrow> 'a) \<Rightarrow> 'a list \<Rightarrow> 'a list" where
  "update_first P f [] = []"
| "update_first P f (x # xs) = (if P x then f x # xs else x # update_first P f xs)"

definition modify_task :: "string \<Rightarrow> (task \<Rightarrow> task) \<Rightarrow> world \<Rightarrow> world" where
  "modify_task tid f w =
     (case find (has_id tid) (active_tasks w) of
        Some t \<Rightarrow> w\<lparr>active_tasks := update_first (has_id tid) f (active_tasks w)\<rparr>
      | None \<Rightarrow> w\<lparr>task_history := update_first (has_id tid) f (task_history w)\<rparr>)"

text \<open>
  \<^verbatim>\<open>archive_task\<close> (lines 287--316).  The task found is stamped in place, appended to the
  history and removed from the active list by \<^verbatim>\<open>list.remove\<close>, which deletes the first
  element equal to it; then both files are saved.  The handler logs and re-raises.
\<close>

definition archive_task :: "string \<Rightarrow> world \<Rightarrow> (error + unit) \<times> world" where
  "archive_task tid w =
     (case find (has_id tid) (active_tasks w) of
        None \<Rightarrow> (Inr (), w)
      | Some t \<Rightarrow>
          (case now w of
             (t1, w1) \<Rightarrow>
               (case now w1 of
                  (t2, w2) \<Rightarrow>
                    (let t' = t\<lparr>completed_at := Some (Datetime t1),
                                 updated_at := Some (Datetime t2)\<rparr>;
                         stamped = update_first (has_id tid) (\<lambda>x. t') (active_tasks w2);
                         w3 = w2\<lparr>task_history := task_history w2 @ [t'],
                                 active_tasks := remove1 t' stamped\<rparr>
                     in case save_task_history w3 of
                          (Inl e, w4) \<Rightarrow> (Inl e, w4)
                        | (Inr u, w4) \<Rightarrow> save_active_tasks w4))))"

text \<open>
  \<^verbatim>\<open>task_id in self.active_tasks\<close> (lines 320 and 326) is the membership test of a list:
  it compares the string with each element of the list, and the elements are the task
  dictionaries that \<^verbatim>\<open>create_task\<close> appends and the loaders read.  A string and a
  dictionary are never equal in Python.  Were the test to succeed,
  \<^verbatim>\<open>self.active_tasks[task_id]\<close> would index a list by a string.
\<close>

datatype pyval = PyStr string | PyDict task

definition py_in :: "pyval \<Rightarrow> pyval list \<Rightarrow> bool" where
  "py_in x xs = list_ex (\<lambda>y. x = y) xs"

definition update_task_status :: "string \<Rightarrow> string \<Rightarrow> world \<Rightarrow> (error + unit) \<times> world" where
  "update_task_status tid st w =
     (if py_in (PyStr tid) (map PyDict (active_tasks w)) then (Inl bad_list_index, w)
      else (Inr (), w))"

definition update_step_status ::
    "string \<Rightarrow> string \<Rightarrow> string \<Rightarrow> world \<Rightarrow> (error + unit) \<times> world" where
  "update_step_status tid sid st w =
     (if py_in (PyStr tid) (map PyDict (active_tasks w)) then (Inl bad_list_index, w)
      else (Inr (), w))"

subsection \<open>Executing steps\<close>

text \<open>
  The completion client is outside the orchestrator: a call either raises (\<open>Inl\<close>, with the
  message) or evaluates to something that the orchestrator stores (\<open>Inr\<close>).  The two step
  executors call it without awaiting, inside a \<^verbatim>\<open>try\<close> block, and store whatever the call
  evaluates to.  A prompt is kept as the parts the source formats into it.
\<close>

datatype prompt = PlanPrompt string ctx | AnalysisPrompt string ctx | ActionPrompt string ctx

type_synonym completion = "prompt \<Rightarrow> string + string"

definition get_description :: "step \<Rightarrow> string" where
  "get_description st = (case step_description st of None \<Rightarrow> [] | Some d \<Rightarrow> d)"

definition execute_analysis_step :: "completion \<Rightarrow> step \<Rightarrow> ctx \<Rightarrow> result" where
  "execute_analysis_step complete st c =
     (case complete (AnalysisPrompt (get_description st) c) of
        Inl m \<Rightarrow> ErrorResult m
      | Inr r \<Rightarrow> StepSuccess r)"

definition execute_action_step :: "completion \<Rightarrow> step \<Rightarrow> ctx \<Rightarrow> result" where
  "execute_action_step complete st c =
     (case complete (ActionPrompt (get_description st) c) of
        Inl m \<Rightarrow> ErrorResult m
      | Inr r \<Rightarrow> StepSuccess r)"

text \<open>
  \<^verbatim>\<open>execute_step\<close> (lines 333--359) returns the result and changes the step dictionary
  in place: \<^verbatim>\<open>step["status"] = result.get("status", "failed")\<close>.
\<close>

definition execute_step :: "completion \<Rightarrow> string \<Rightarrow> step \<Rightarrow> world \<Rightarrow> result \<times> step \<times> world" where
  "execute_step complete tid st w =
     (case get_task tid w of
        None \<Rightarrow> (ErrorResult ''Task not found'', st, w)
      | Some t \<Rightarrow>
          (let ty = (case step_type st of None \<Rightarrow> ''unknown'' | Some x \<Rightarrow> x);
               res = (if ty = ''analysis'' then execute_analysis_step complete st (task_context t)
                      else if ty = ''action'' then execute_action_step complete st (task_context t)
                      else ErrorResult (''Unknown step type: '' @ ty))
           in case now w of
                (t1, w1) \<Rightarrow>
                  (res,
                   st\<lparr>step_result := Some res, step_status := result_status res,
                      step_updated_at := Some (Datetime t1)\<rparr>,
                   w1)))"

definition put_step :: "string \<Rightarrow> nat \<Rightarrow> step \<Rightarrow> world \<Rightarrow> world" where
  "put_step tid i st w = modify_task tid (\<lambda>t. t\<lparr>task_steps := (task_steps t)[i := st]\<rparr>) w"

text \<open>
  The loop of \<^verbatim>\<open>execute_task\<close> (lines 426--436) over the steps from position \<open>i\<close> on:
  \<open>Inr None\<close> when the loop ends, \<open>Inr (Some r)\<close> for the early \<^verbatim>\<open>return result\<close>.
\<close>

fun run_steps ::
    "completion \<Rightarrow> string \<Rightarrow> nat \<Rightarrow> step list \<Rightarrow> world \<Rightarrow> (error + result option) \<times> world" where
  "run_steps complete tid i [] w = (Inr None, w)"
| "run_steps complete tid i (st # sts) w =
     (case execute_step complete tid st w of
        (res, st', w1) \<Rightarrow>
          (let w2 = put_step tid i st' w1 in
           if result_status res = ''success'' then
             (case update_step_status tid (step_id st') ''completed'' w2 of
                (Inl e, w3) \<Rightarrow> (Inl e, w3)
              | (Inr u, w3) \<Rightarrow> run_steps complete tid (Suc i) sts w3)
           else
             (case update_step_status tid (step_id st') ''failed'' w2 of
                (Inl e, w3) \<Rightarrow> (Inl e, w3)
              | (Inr u, w3) \<Rightarrow>
                  (case update_task_status tid ''failed'' w3 of
                     (Inl e, w4) \<Rightarrow> (Inl e, w4)
                   | (Inr u', w4) \<Rightarrow> (Inr (Some res), w4)))))"

text \<open>\<^verbatim>\<open>execute_task\<close> (lines 413--459): the \<^verbatim>\<open>try\<close> block, then the handler.\<close>

definition execute_task_body :: "completion \<Rightarrow> string \<Rightarrow> world \<Rightarrow> (error + result) \<times> world" where
  "execute_task_body complete tid w =
     (case get_task tid w of
        None \<Rightarrow> (Inr (ErrorResult ''Task not found''), w)
      | Some t \<Rightarrow>
          (case update_task_status tid ''running'' w of
             (Inl e, w1) \<Rightarrow> (Inl e, w1)
           | (Inr u, w1) \<Rightarrow>
               (case run_steps complete tid 0 (task_steps t) w1 of
                  (Inl e, w2) \<Rightarrow> (Inl e, w2)
                | (Inr (Some r), w2) \<Rightarrow> (Inr r, w2)
                | (Inr None, w2) \<Rightarrow>
                    (case update_task_status tid ''completed'' w2 of
                       (Inl e, w3) \<Rightarrow> (Inl e, w3)
                     | (Inr u', w3) \<Rightarrow>
                         (case archive_task tid w3 of
                            (Inl e, w4) \<Rightarrow> (Inl e, w4)
                          | (Inr u'', w4) \<Rightarrow> (Inr (TaskSuccess tid), w4))))))"

definition execute_task :: "completion \<Rightarrow> string \<Rightarrow> world \<Rightarrow> (error + result) \<times> world" where
  "execute_task complete tid w =
     (case execute_task_body complete tid w of
        (Inl e, w1) \<Rightarrow>
          (case update_task_status tid ''failed'' w1 of
             (Inl e', w2) \<Rightarrow> (Inl e', w2)
           | (Inr u, w2) \<Rightarrow> (Inr (ErrorResult (error_text e)), w2))
      | (Inr r, w1) \<Rightarrow> (Inr r, w1))"

subsection \<open>Planning and creating a task\<close>

text \<open>
  \<^verbatim>\<open>str.strip()\<close> removes leading and trailing white space.  A character of the model is
  a code point below 256; the white space among these is 9--13, 28--32, 133 and 160.
\<close>

definition py_isspace :: "char \<Rightarrow> bool" where
  "py_isspace c =
     (let n = (of_char c :: nat)
      in (9 \<le> n \<and> n \<le> 13) \<or> (28 \<le> n \<and> n \<le> 32) \<or> n = 133 \<or> n = 160)"

definition strip :: "string \<Rightarrow> string" where
  "strip s = rev (dropWhile py_isspace (rev (dropWhile py_isspace s)))"

definition startswith :: "string \<Rightarrow> string \<Rightarrow> bool" where
  "startswith s p = (take (length p) s = p)"

definition endswith :: "string \<Rightarrow> string \<Rightarrow> bool" where
  "endswith s p = (length p \<le> length s \<and> drop (length s - length p) s = p)"

text \<open>Lines 202--207: the clean-up of the response before it is parsed.\<close>

definition clean_response :: "string \<Rightarrow> string" where
  "clean_response response =
     (let r1 = strip response;
          r2 = (if startswith r1 ''```json'' then drop 7 r1 else r1);
          r3 = (if endswith r2 ''```'' then take (length r2 - 3) r2 else r2)
      in strip r3)"

text \<open>
  \<^verbatim>\<open>json.loads\<close> is a parameter of the model.  It rejects the text, or yields a list of
  step objects, or yields a JSON value that the loop over the steps cannot handle: the
  loop raises a \<^verbatim>\<open>TypeError\<close> on it, whose text comes with the value.
\<close>

datatype parsed = NotJson | NotStepList string | StepList "step list"

type_synonym json_loads = "string \<Rightarrow> parsed"

text \<open>Lines 217--221, with \<^verbatim>\<open>enumerate(steps, 1)\<close>.\<close>

fun annotate_steps :: "nat \<Rightarrow> step list \<Rightarrow> world \<Rightarrow> step list \<times> world" where
  "annotate_steps i [] w = ([], w)"
| "annotate_steps i (st # sts) w =
     (case now w of
        (t1, w1) \<Rightarrow>
          (case now w1 of
             (t2, w2) \<Rightarrow>
               (let st' = st\<lparr>step_id := ''step_'' @ string_of_nat i, step_status := ''pending'',
                             step_created_at := Some (Datetime t1),
                             step_updated_at := Some (Datetime t2)\<rparr>
                in case annotate_steps (Suc i) sts w2 of
                     (sts', w3) \<Rightarrow> (st' # sts', w3))))"

text \<open>\<^verbatim>\<open>_plan_task_steps\<close> (lines 181--227): the \<^verbatim>\<open>try\<close> block, then the handler.\<close>

definition plan_task_steps_body ::
    "completion \<Rightarrow> json_loads \<Rightarrow> string \<Rightarrow> ctx \<Rightarrow> world \<Rightarrow> (error + step list) \<times> world" where
  "plan_task_steps_body complete loads description c w =
     (case complete (PlanPrompt description c) of
        Inl m \<Rightarrow> (Inl (CompletionError m), w)
      | Inr response \<Rightarrow>
          (case loads (clean_response response) of
             NotJson \<Rightarrow> (Inr [], w)
           | NotStepList m \<Rightarrow> (Inl (TypeError m), w)
           | StepList raw \<Rightarrow> (case annotate_steps 1 raw w of (sts, w1) \<Rightarrow> (Inr sts, w1))))"

definition plan_task_steps ::
    "completion \<Rightarrow> json_loads \<Rightarrow> string \<Rightarrow> ctx \<Rightarrow> world \<Rightarrow> (error + step list) \<times> world" where
  "plan_task_steps complete loads description c w =
     (case plan_task_steps_body complete loads description c w of
        (Inl e, w1) \<Rightarrow> (Inr [], w1)
      | (Inr sts, w1) \<Rightarrow> (Inr sts, w1))"

text \<open>
  \<^verbatim>\<open>create_task\<close> (lines 229--262).  The dictionary returned is the one appended to the
  active list, as the save has left it.  The handler logs and re-raises.
\<close>

definition new_task_id :: "world \<Rightarrow> string" where
  "new_task_id w =
     ''task_'' @ string_of_nat (length (active_tasks w) + length (task_history w) + 1)"

text \<open>The dictionary literal of lines 239--247 (\<^verbatim>\<open>context or {}\<close> is the context itself here).\<close>

definition new_task :: "string \<Rightarrow> string \<Rightarrow> ctx \<Rightarrow> step list \<Rightarrow> datetime \<Rightarrow> datetime \<Rightarrow> task" where
  "new_task tid description c sts t1 t2 =
     \<lparr>task_id = tid, task_description = description, task_context = c,
      task_status = ''pending'', task_steps = sts,
      created_at = Some (Datetime t1), updated_at = Some (Datetime t2),
      completed_at = None\<rparr>"

definition create_task ::
    "completion \<Rightarrow> json_loads \<Rightarrow> string \<Rightarrow> ctx \<Rightarrow> world \<Rightarrow> (error + task) \<times> world" where
  "create_task complete loads description c w =
     (let tid = new_task_id w in
      case plan_task_steps complete loads description c w of
        (Inl e, w1) \<Rightarrow> (Inl e, w1)
      | (Inr sts, w1) \<Rightarrow>
          (case now w1 of
             (t1, w2) \<Rightarrow>
               (case now w2 of
                  (t2, w3) \<Rightarrow>
                    (let t = new_task tid description c sts t1 t2;
                         w4 = w3\<lparr>active_tasks := active_tasks w3 @ [t]\<rparr>
                     in case save_active_tasks w4 of
                          (Inl e, w5) \<Rightarrow> (Inl e, w5)
                        | (Inr u, w5) \<Rightarrow> (Inr (last (active_tasks w5)), w5)))))"

subsection \<open>The constructor\<close>

text \<open>
  \<^verbatim>\<open>__init__\<close> (lines 29--47): both lists are emptied and then loaded from the files, the
  history first.  Constructing the orchestrator over the files of an earlier run is a
  restart.  (The completion client and the logger that the constructor also sets up are
  outside the model.)
\<close>

definition agent_service_init :: "world \<Rightarrow> world" where
  "agent_service_init w =
     (let w0 = w\<lparr>active_tasks := [], task_history := []\<rparr> in
      case load_task_history w0 of
        (r1, w1) \<Rightarrow> (case load_active_tasks w1 of (r2, w2) \<Rightarrow> w2))"

subsection \<open>Sequences of operations\<close>

text \<open>
  The operations a caller performs one after the other; each comes with what the outside
  world answers during it (the completion client and the JSON parser's verdict).
\<close>

datatype operation =
    Create completion json_loads string ctx
  | Execute completion string
  | Archive string

fun apply_operation :: "operation \<Rightarrow> world \<Rightarrow> world" where
  "apply_operation (Create complete loads description c) w =
     snd (create_task complete loads description c w)"
| "apply_operation (Execute complete tid) w = snd (execute_task complete tid w)"
| "apply_operation (Archive tid) w = snd (archive_task tid w)"

fun run_operations :: "operation list \<Rightarrow> world \<Rightarrow> world" where
  "run_operations [] w = w"
| "run_operations (x # xs) w = run_operations xs (apply_operation x w)"

definition task_ids :: "world \<Rightarrow> string list" where
  "task_ids w = map task_id (active_tasks w @ task_history w)"

subsection \<open>Reading off what is in memory and what is on disk\<close>

definition step_statuses :: "task list \<Rightarrow> string list list" where
  "step_statuses ts = map (\<lambda>t. map step_status (task_steps t)) ts"

fun stored_tasks :: "fcontent option \<Rightarrow> task list" where
  "stored_tasks (Some (JsonTasks ts)) = ts"
| "stored_tasks c = []"

section \<open>Concrete stores used to evaluate the operations\<close>

definition fresh_disk :: disk where
  "fresh_disk =
     \<lparr>history_file = Some (JsonTasks []), tasks_file = Some (JsonTasks []),
      backup_file = None, history_open_error = None, tasks_open_error = None\<rparr>"

definition fresh_world :: world where
  "fresh_world = \<lparr>active_tasks = [], task_history = [], fs = fresh_disk, clock = 0\<rparr>"

text \<open>A planned step as it is in memory after the save that follows its creation.\<close>

definition planned_step :: "string \<Rightarrow> string \<Rightarrow> step" where
  "planned_step i d =
     \<lparr>step_id = i, step_type = Some ''analysis'', step_description = Some d,
      step_status = ''pending'', step_result = None,
      step_created_at = Some (IsoString ''2''), step_updated_at = Some (IsoString ''3'')\<rparr>"

definition three_step_task :: task where
  "three_step_task =
     \<lparr>task_id = ''task_1'', task_description = ''restart the service'', task_context = [],
      task_status = ''pending'',
      task_steps = [planned_step ''step_1'' ''check'', planned_step ''step_2'' ''restart'',
                    planned_step ''step_3'' ''verify''],
      created_at = Some (Datetime 0), updated_at = Some (Datetime 1), completed_at = None\<rparr>"

definition three_step_file :: fcontent where
  "three_step_file =
     JsonTasks [three_step_task\<lparr>created_at := Some (IsoString ''0''),
                                updated_at := Some (IsoString ''1'')\<rparr>]"

definition three_step_world :: world where
  "three_step_world =
     \<lparr>active_tasks = [three_step_task], task_history = [],
      fs = fresh_disk\<lparr>tasks_file := Some three_step_file\<rparr>, clock = 10\<rparr>"

text \<open>The same store with a second step of a type that \<^verbatim>\<open>execute_step\<close> does not know.\<close>

definition unsupported_step_world :: world where
  "unsupported_step_world =
     three_step_world
       \<lparr>active_tasks :=
          [three_step_task
             \<lparr>task_steps :=
                [planned_step ''step_1'' ''check'',
                 (planned_step ''step_2'' ''restart'')\<lparr>step_type := Some ''unsupported''\<rparr>,
                 planned_step ''step_3'' ''verify'']\<rparr>]\<rparr>"

text \<open>A completion client whose call for the step described as ``restart'' raises.\<close>

definition restart_fails :: completion where
  "restart_fails p =
     (case p of
        AnalysisPrompt d c \<Rightarrow> (if d = ''restart'' then Inl ''timeout'' else Inr ''done'')
      | PlanPrompt d c \<Rightarrow> Inr ''done''
      | ActionPrompt d c \<Rightarrow> Inr ''done'')"

definition always_done :: completion where
  "always_done p = Inr ''done''"

definition two_step_task :: task where
  "two_step_task =
     \<lparr>task_id = ''task_1'', task_description = ''collect the logs'', task_context = [],
      task_status = ''pending'',
      task_steps = [planned_step ''step_1'' ''check'', planned_step ''step_2'' ''collect''],
      created_at = Some (Datetime 0), updated_at = Some (Datetime 1), completed_at = None\<rparr>"

definition two_step_world :: world where
  "two_step_world =
     \<lparr>active_tasks = [two_step_task], task_history = [], fs = fresh_disk, clock = 10\<rparr>"

definition rejects_all :: json_loads where
  "rejects_all s = NotJson"

text \<open>A parser's verdict with one step object, as the model's JSON gives it.\<close>

definition raw_step :: step where
  "raw_step =
     \<lparr>step_id = [], step_type = Some ''analysis'', step_description = Some ''check'',
      step_status = [], step_result = None, step_created_at = None, step_updated_at = None\<rparr>"

definition one_step_plan :: json_loads where
  "one_step_plan s = StepList [raw_step]"

text \<open>An orchestrator that has created one task with one step.\<close>

definition saved_step_world :: world where
  "saved_step_world =
     run_operations [Create always_done one_step_plan ''first'' []] fresh_world"

text \<open>
  An orchestrator that created a task with one step, executed it, created a second task,
  and was then constructed anew over the files it had left.
\<close>

definition earlier_run :: world where
  "earlier_run =
     run_operations
       [Create always_done one_step_plan ''first'' [],
        Execute always_done ''task_1'',
        Create always_done rejects_all ''second'' []]
       fresh_world"

definition restarted_world :: world where
  "restarted_world = agent_service_init earlier_run"

text \<open>The restarted orchestrator after one more \<^verbatim>\<open>create_task\<close>.\<close>

definition duplicate_world :: world where
  "duplicate_world = snd (create_task always_done rejects_all ''third'' [] restarted_world)"

definition readonly_world :: world where
  "readonly_world =
     fresh_world\<lparr>fs := fresh_disk\<lparr>tasks_open_error := Some ''[Errno 13] Permission denied''\<rparr>\<rparr>"

text \<open>A history file that is not JSON, and a history that cannot be written.\<close>

definition corrupt_history_world :: world where
  "corrupt_history_world =
     fresh_world\<lparr>fs := fresh_disk\<lparr>history_file := Some (Corrupt ''[{task_id: '')\<rparr>\<rparr>"

definition corrupt_active_world :: world where
  "corrupt_active_world =
     fresh_world\<lparr>fs := fresh_disk\<lparr>tasks_file := Some (Corrupt ''[{task_id: '')\<rparr>\<rparr>"

definition archived_task :: task where
  "archived_task =
     \<lparr>task_id = ''task_1'', task_description = ''collect the logs'', task_context = [],
      task_status = ''pending'', task_steps = [],
      created_at = Some (Datetime 0), updated_at = Some (Datetime 3),
      completed_at = Some (Datetime 2)\<rparr>"

definition unwritable_history_world :: world where
  "unwritable_history_world =
     \<lparr>active_tasks = [], task_history = [archived_task],
      fs = fresh_disk\<lparr>history_open_error := Some ''[Errno 13] Permission denied''\<rparr>,
      clock = 4\<rparr>"

definition unwritable_active_world :: world where
  "unwritable_active_world =
     \<lparr>active_tasks = [archived_task\<lparr>completed_at := None\<rparr>], task_history = [],
      fs = fresh_disk\<lparr>tasks_open_error := Some ''[Errno 13] Permission denied''\<rparr>,
      clock = 4\<rparr>"

text \<open>A step as the planner returns it, before any save.\<close>

definition timed_step :: step where
  "timed_step =
     \<lparr>step_id = ''step_1'', step_type = Some ''analysis'', step_description = Some ''check'',
      step_status = ''pending'', step_result = None,
      step_created_at = Some (Datetime 2), step_updated_at = Some (Datetime 3)\<rparr>"

definition timed_task :: task where
  "timed_task =
     \<lparr>task_id = ''task_1'', task_description = ''check the service'', task_context = [],
      task_status = ''pending'', task_steps = [timed_step],
      created_at = Some (Datetime 4), updated_at = Some (Datetime 5), completed_at = None\<rparr>"

definition timed_world :: world where
  "timed_world = \<lparr>active_tasks = [timed_task], task_history = [], fs = fresh_disk, clock = 6\<rparr>"

text \<open>
  The invariant behind the uniqueness of identifiers: the identifiers in the two lists are
  pairwise distinct and each is \<^verbatim>\<open>task_k\<close> for some \<open>k\<close> between 1 and their number.
\<close>

definition ids_wf :: "world \<Rightarrow> bool" where
  "ids_wf w =
     (distinct (task_ids w) \<and>
      set (task_ids w) \<subseteq> (\<lambda>k. ''task_'' @ string_of_nat k) ` {1..length (task_ids w)})"

section \<open>The status updates change nothing\<close>

lemma py_in_str_dicts: "\<not> py_in (PyStr tid) (map PyDict ts)"
  by (induction ts) (simp_all add: py_in_def)

lemma update_task_status_eq [simp]: "update_task_status tid st w = (Inr (), w)"
  by (simp add: update_task_status_def py_in_str_dicts)

lemma update_step_status_eq [simp]: "update_step_status tid sid st w = (Inr (), w)"
  by (simp add: update_step_status_def py_in_str_dicts)

text \<open>
  C4.  Whatever the state, the task identifier and the status are,
  \<^verbatim>\<open>update_task_status\<close> and \<^verbatim>\<open>update_step_status\<close> return normally and leave the state,
  and so the active collection and every status field in it, as it was: the membership test
  compares a string with dictionaries and never succeeds.
\<close>

theorem update_status_noop:
  "update_task_status tid st w = (Inr (), w) \<and> update_step_status tid sid st w = (Inr (), w)"
  unfolding update_task_status_def update_step_status_def
  by (simp add: py_in_str_dicts)

section \<open>What executing steps leaves alone\<close>

lemma update_first_ids:
  "(\<And>x. task_id (f x) = task_id x) \<Longrightarrow> map task_id (update_first P f xs) = map task_id xs"
  by (induction xs) simp_all

lemma modify_task_frame [simp]:
  "fs (modify_task tid f w) = fs w" "clock (modify_task tid f w) = clock w"
  by (simp_all add: modify_task_def split: option.splits)

lemma modify_task_ids:
  assumes "\<And>x. task_id (f x) = task_id x"
  shows "map task_id (active_tasks (modify_task tid f w)) = map task_id (active_tasks w)"
    and "map task_id (task_history (modify_task tid f w)) = map task_id (task_history w)"
  using assms by (simp_all add: modify_task_def update_first_ids split: option.splits)

lemma put_step_frame [simp]:
  "fs (put_step tid i st w) = fs w"
  "map task_id (active_tasks (put_step tid i st w)) = map task_id (active_tasks w)"
  "map task_id (task_history (put_step tid i st w)) = map task_id (task_history w)"
  by (simp_all add: put_step_def modify_task_ids)

lemma execute_step_frame:
  assumes "execute_step complete tid st w = (res, st', w1)"
  shows "fs w1 = fs w" "active_tasks w1 = active_tasks w" "task_history w1 = task_history w"
  using assms
  by (auto simp: execute_step_def now_def Let_def split: option.splits)

lemma run_steps_frame:
  "fs (snd (run_steps complete tid i sts w)) = fs w \<and>
   map task_id (active_tasks (snd (run_steps complete tid i sts w))) = map task_id (active_tasks w) \<and>
   map task_id (task_history (snd (run_steps complete tid i sts w))) = map task_id (task_history w)"
proof (induction sts arbitrary: i w)
  case Nil
  show ?case by simp
next
  case (Cons st sts)
  obtain res st' w1 where e: "execute_step complete tid st w = (res, st', w1)"
    by (cases "execute_step complete tid st w") auto
  note fr = execute_step_frame [OF e]
  show ?case
  proof (cases "result_status res = ''success''")
    case True
    then show ?thesis
      using Cons.IH [of "Suc i" "put_step tid i st' w1"] e fr by (simp add: Let_def)
  next
    case False
    then show ?thesis using e fr by (simp add: Let_def)
  qed
qed

lemma run_steps_no_raise: "\<exists>r. fst (run_steps complete tid i sts w) = Inr r"
proof (induction sts arbitrary: i w)
  case Nil
  show ?case by simp
next
  case (Cons st sts)
  obtain res st' w1 where e: "execute_step complete tid st w = (res, st', w1)"
    by (cases "execute_step complete tid st w") auto
  show ?case
    using Cons.IH [of "Suc i" "put_step tid i st' w1"] e by (simp add: Let_def)
qed

lemma execute_task_step_failure:
  assumes "get_task tid w = Some t"
    and "fst (run_steps complete tid 0 (task_steps t) w) = Inr (Some r)"
  shows "execute_task complete tid w = (Inr r, snd (run_steps complete tid 0 (task_steps t) w))"
  using assms
  by (cases "run_steps complete tid 0 (task_steps t) w")
     (simp add: execute_task_def execute_task_body_def)

section \<open>Executing a task\<close>


text \<open>
  The same statuses result when the second step fails without any call, by its type.
\<close>

lemma execute_task_halt_unsupported_evaluated:
  "fst (execute_task always_done ''task_1'' unsupported_step_world)
     = Inr (ErrorResult ''Unknown step type: unsupported'') \<and>
   step_statuses (active_tasks (snd (execute_task always_done ''task_1'' unsupported_step_world)))
     = [[''success'', ''error'', ''pending'']] \<and>
   map task_status (active_tasks (snd (execute_task always_done ''task_1'' unsupported_step_world)))
     = [''pending''] \<and>
   task_history (snd (execute_task always_done ''task_1'' unsupported_step_world)) = []"
  by code_simp

text \<open>
  C2.  All steps succeed, evaluated on a stored task with two steps.  The claim expects the
  task to end `completed', in the history and not in the active collection, with
  \<^verbatim>\<open>completed_at\<close> set and not before \<^verbatim>\<open>created_at\<close>.  The code moves the task to the
  history and stamps \<^verbatim>\<open>completed_at\<close> (12, after \<^verbatim>\<open>created_at\<close> = 0), but the archived task
  still has the status `pending'.
\<close>

theorem execute_task_all_success_evaluated:
  "execute_task always_done ''task_1'' two_step_world =
     (Inr (TaskSuccess ''task_1''),
      two_step_world
        \<lparr>active_tasks := [],
         task_history :=
           [two_step_task
              \<lparr>task_steps :=
                 [(planned_step ''step_1'' ''check'')
                    \<lparr>step_status := ''success'', step_result := Some (StepSuccess ''done''),
                     step_updated_at := Some (Datetime 10)\<rparr>,
                  (planned_step ''step_2'' ''collect'')
                    \<lparr>step_status := ''success'', step_result := Some (StepSuccess ''done''),
                     step_updated_at := Some (Datetime 11)\<rparr>],
               completed_at := Some (Datetime 12), updated_at := Some (Datetime 13)\<rparr>],
         fs := fresh_disk\<lparr>history_file := Some Partial\<rparr>,
         clock := 14\<rparr>)"
  by code_simp

text \<open>
  C3, as amended.  While \<^verbatim>\<open>execute_task\<close> runs the steps nothing is written to the
  backing files: the loop over the steps leaves the disk as it is, whatever the steps and
  the answers of the completion client.  So when the task is not found, or when a step
  fails and the call returns that step's result, the files after the call are the files
  before it; they are written only by the archival that follows the last successful step.
\<close>

theorem execute_task_writes_nothing_before_archival:
  "fs (snd (run_steps complete tid i sts w)) = fs w \<and>
   (get_task tid w = None \<longrightarrow> fs (snd (execute_task complete tid w)) = fs w) \<and>
   (get_task tid w = Some t \<and> fst (run_steps complete tid 0 (task_steps t) w) = Inr (Some r) \<longrightarrow>
      fs (snd (execute_task complete tid w)) = fs w)"
proof (intro conjI impI)
  show "fs (snd (run_steps complete tid i sts w)) = fs w"
    using run_steps_frame [of complete tid i sts w] by simp
next
  assume "get_task tid w = None"
  then show "fs (snd (execute_task complete tid w)) = fs w"
    by (simp add: execute_task_def execute_task_body_def)
next
  assume a: "get_task tid w = Some t \<and> fst (run_steps complete tid 0 (task_steps t) w) = Inr (Some r)"
  then have "execute_task complete tid w = (Inr r, snd (run_steps complete tid 0 (task_steps t) w))"
    by (simp add: execute_task_step_failure)
  then show "fs (snd (execute_task complete tid w)) = fs w"
    using run_steps_frame [of complete tid 0 "task_steps t" w] by simp
qed

theorem execute_task_writes_nothing_before_archival_witness:
  "fs (snd (run_steps restart_fails ''task_1'' 0 (task_steps three_step_task) three_step_world))
     = fs three_step_world \<and>
   fs (snd (execute_task restart_fails ''task_9'' three_step_world)) = fs three_step_world \<and>
   fs (snd (execute_task restart_fails ''task_1'' three_step_world)) = fs three_step_world"
proof -
  have n: "get_task ''task_9'' three_step_world = None" by code_simp
  have s: "get_task ''task_1'' three_step_world = Some three_step_task \<and>
           fst (run_steps restart_fails ''task_1'' 0 (task_steps three_step_task) three_step_world)
             = Inr (Some (ErrorResult ''timeout''))"
    by code_simp
  show ?thesis
    using execute_task_writes_nothing_before_archival
            [of restart_fails "''task_1''" 0 "task_steps three_step_task" three_step_world
                three_step_task "ErrorResult ''timeout''"]
          execute_task_writes_nothing_before_archival
            [of restart_fails "''task_9''" 0 "[]" three_step_world]
          n s
    by simp
qed

text \<open>
  The claim as it stands fails: after the call two steps have been executed in memory,
  and the active-tasks file still shows all three as `pending'.
\<close>

theorem step_persistence_counterexample:
  "step_statuses (active_tasks (snd (execute_task restart_fails ''task_1'' three_step_world)))
     = [[''success'', ''error'', ''pending'']] \<and>
   step_statuses (stored_tasks (tasks_file (fs (snd (execute_task restart_fails ''task_1'' three_step_world)))))
     = [[''pending'', ''pending'', ''pending'']]"
  by code_simp

section \<open>Saving and archiving keep the identifiers\<close>

lemma save_active_task_id: "task_id (snd (save_active_task t)) = task_id t"
  by (simp add: save_active_task_def Let_def split: sum.splits prod.splits)

lemma save_active_loop_ids: "map task_id (snd (save_active_loop ts)) = map task_id ts"
proof (induction ts)
  case Nil
  show ?case by simp
next
  case (Cons t ts)
  obtain r t' where s: "save_active_task t = (r, t')" by (cases "save_active_task t") auto
  then have i: "task_id t' = task_id t" using save_active_task_id [of t] by simp
  show ?case using Cons.IH s i by (auto split: sum.splits prod.splits)
qed

lemma save_active_tasks_frame:
  "map task_id (active_tasks (snd (save_active_tasks w))) = map task_id (active_tasks w)"
  "task_history (snd (save_active_tasks w)) = task_history w"
  using save_active_loop_ids [of "active_tasks w"]
  by (auto simp: save_active_tasks_def split: sum.splits prod.splits)

lemma save_task_history_frame:
  "active_tasks (snd (save_task_history w)) = active_tasks w"
  "task_history (snd (save_task_history w)) = task_history w"
  "fst (save_task_history w) = Inr ()"
  by (auto simp: save_task_history_def save_task_history_body_def split: sum.splits prod.splits)

lemma find_has_id_None: "find (has_id tid) xs = None \<longleftrightarrow> tid \<notin> set (map task_id xs)"
  by (induction xs) (auto simp: has_id_def)

lemma archive_task_absent:
  "tid \<notin> set (map task_id (active_tasks w)) \<Longrightarrow> archive_task tid w = (Inr (), w)"
  using find_has_id_None [of tid "active_tasks w"] by (simp add: archive_task_def)

lemma remove_stamped_mset:
  "find (has_id tid) xs = Some t \<Longrightarrow> task_id t' = tid \<Longrightarrow>
   mset (map task_id (remove1 t' (update_first (has_id tid) (\<lambda>x. t') xs))) + {#tid#}
     = mset (map task_id xs)"
proof (induction xs)
  case Nil
  then show ?case by simp
next
  case (Cons x xs)
  show ?case
  proof (cases "has_id tid x")
    case True
    then have "remove1 t' (update_first (has_id tid) (\<lambda>x. t') (x # xs)) = xs" by simp
    then show ?thesis using True by (simp add: has_id_def)
  next
    case False
    then have ne: "t' \<noteq> x" using Cons.prems(2) by (auto simp: has_id_def)
    have f: "find (has_id tid) xs = Some t" using Cons.prems(1) False by simp
    have "remove1 t' (update_first (has_id tid) (\<lambda>x. t') (x # xs))
            = x # remove1 t' (update_first (has_id tid) (\<lambda>x. t') xs)"
      using False ne by simp
    then show ?thesis using Cons.IH [OF f Cons.prems(2)] by (simp del: mset_remove1)
  qed
qed

lemma remove_stamped_absent:
  "find (has_id tid) xs = Some t \<Longrightarrow> task_id t' = tid \<Longrightarrow> distinct (map task_id xs) \<Longrightarrow>
   tid \<notin> set (map task_id (remove1 t' (update_first (has_id tid) (\<lambda>x. t') xs)))"
proof (induction xs)
  case Nil
  then show ?case by simp
next
  case (Cons x xs)
  show ?case
  proof (cases "has_id tid x")
    case True
    then show ?thesis using Cons.prems by (auto simp: has_id_def)
  next
    case False
    then have "t' \<noteq> x" using Cons.prems(2) by (auto simp: has_id_def)
    then show ?thesis using False Cons by (auto simp: has_id_def)
  qed
qed

lemma find_has_id_Some: "find (has_id tid) xs = Some t \<Longrightarrow> task_id t = tid"
  by (induction xs) (auto simp: has_id_def split: if_splits)

text \<open>What \<^verbatim>\<open>archive_task\<close> does to the two lists of identifiers when the task is found.\<close>

lemma archive_task_found_ids:
  assumes "find (has_id tid) (active_tasks w) = Some t"
  shows "mset (map task_id (active_tasks (snd (archive_task tid w)))) + {#tid#}
           = mset (map task_id (active_tasks w))"
    and "map task_id (task_history (snd (archive_task tid w))) = map task_id (task_history w) @ [tid]"
proof -
  let ?t' = "t\<lparr>completed_at := Some (Datetime (clock w)), updated_at := Some (Datetime (Suc (clock w)))\<rparr>"
  let ?w3 = "w\<lparr>clock := Suc (Suc (clock w)), task_history := task_history w @ [?t'],
               active_tasks := remove1 ?t' (update_first (has_id tid) (\<lambda>x. ?t') (active_tasks w))\<rparr>"
  have tid: "task_id ?t' = tid" using find_has_id_Some [OF assms] by simp
  obtain w4 where h: "save_task_history ?w3 = (Inr (), w4)"
    using save_task_history_frame(3) [of ?w3] by (cases "save_task_history ?w3") auto
  have w4: "active_tasks w4 = active_tasks ?w3" "task_history w4 = task_history ?w3"
    using save_task_history_frame(1,2) [of ?w3] h by simp_all
  have a: "snd (archive_task tid w) = snd (save_active_tasks w4)"
    using assms h by (simp add: archive_task_def now_def Let_def)
  show "mset (map task_id (active_tasks (snd (archive_task tid w)))) + {#tid#}
           = mset (map task_id (active_tasks w))"
    using remove_stamped_mset [OF assms tid]
    by (simp add: a save_active_tasks_frame w4 del: mset_remove1 mset_map)
  show "map task_id (task_history (snd (archive_task tid w))) = map task_id (task_history w) @ [tid]"
    using tid by (simp add: a save_active_tasks_frame w4)
qed

lemma archive_task_mset_ids: "mset (task_ids (snd (archive_task tid w))) = mset (task_ids w)"
proof (cases "find (has_id tid) (active_tasks w)")
  case None
  then show ?thesis by (simp add: archive_task_def)
next
  case (Some t)
  have "mset (task_ids (snd (archive_task tid w)))
          = mset (map task_id (active_tasks (snd (archive_task tid w)))) + {#tid#}
              + mset (map task_id (task_history w))"
    using archive_task_found_ids(2) [OF Some] by (simp add: task_ids_def del: mset_map)
  also have "\<dots> = mset (map task_id (active_tasks w)) + mset (map task_id (task_history w))"
    using archive_task_found_ids(1) [OF Some] by (simp del: mset_map)
  also have "\<dots> = mset (task_ids w)" by (simp add: task_ids_def)
  finally show ?thesis .
qed

text \<open>
  What holds of archiving twice.  Called with an identifier that no active task has,
  \<^verbatim>\<open>archive_task\<close> returns normally and leaves the whole state (both collections and the
  files) as it was.  And where the active tasks have pairwise distinct identifiers, a
  second call for the same identifier returns normally and changes nothing.
\<close>

lemma archive_task_idempotent:
  "(tid \<notin> set (map task_id (active_tasks w)) \<longrightarrow> archive_task tid w = (Inr (), w)) \<and>
   (distinct (map task_id (active_tasks w)) \<longrightarrow>
      archive_task tid (snd (archive_task tid w)) = (Inr (), snd (archive_task tid w)))"
proof (intro conjI impI)
  assume "tid \<notin> set (map task_id (active_tasks w))"
  then show "archive_task tid w = (Inr (), w)" by (rule archive_task_absent)
next
  assume d: "distinct (map task_id (active_tasks w))"
  let ?w' = "snd (archive_task tid w)"
  have "tid \<notin> set (map task_id (active_tasks ?w'))"
  proof (cases "find (has_id tid) (active_tasks w)")
    case None
    then have "tid \<notin> set (map task_id (active_tasks w))"
      using find_has_id_None [of tid "active_tasks w"] by blast
    then show ?thesis by (simp add: archive_task_absent)
  next
    case (Some t)
    have m: "mset (map task_id (active_tasks ?w')) + {#tid#} = mset (map task_id (active_tasks w))"
      by (rule archive_task_found_ids(1) [OF Some])
    have "count (mset (map task_id (active_tasks w))) tid \<le> 1"
      using d by (simp add: distinct_count_atmost_1)
    then have "count (mset (map task_id (active_tasks ?w'))) tid = 0"
      unfolding m [symmetric] by simp
    then show ?thesis by (simp add: count_eq_zero_iff del: mset_map)
  qed
  then show "archive_task tid ?w' = (Inr (), ?w')" by (rule archive_task_absent)
qed

lemma archive_task_idempotent_example:
  "archive_task ''task_9'' two_step_world = (Inr (), two_step_world) \<and>
   archive_task ''task_1'' (snd (archive_task ''task_1'' two_step_world))
     = (Inr (), snd (archive_task ''task_1'' two_step_world))"
  using archive_task_idempotent [of "''task_9''" two_step_world]
        archive_task_idempotent [of "''task_1''" two_step_world]
  by (simp add: two_step_world_def two_step_task_def)

section \<open>Identifiers of created tasks\<close>

lemma execute_task_body_mset_ids:
  "mset (task_ids (snd (execute_task_body complete tid w))) = mset (task_ids w)"
proof (cases "get_task tid w")
  case None
  then show ?thesis by (simp add: execute_task_body_def)
next
  case (Some t)
  let ?r = "run_steps complete tid 0 (task_steps t) w"
  obtain x w2 where r: "?r = (Inr x, w2)"
    using run_steps_no_raise [of complete tid 0 "task_steps t" w] by (cases ?r) auto
  have ids: "task_ids w2 = task_ids w"
    using run_steps_frame [of complete tid 0 "task_steps t" w] r by (simp add: task_ids_def)
  show ?thesis
  proof (cases x)
    case None
    then show ?thesis
      using Some r ids archive_task_mset_ids [of tid w2]
      by (cases "archive_task tid w2") (auto simp: execute_task_body_def split: sum.splits)
  next
    case (Some a)
    then show ?thesis using \<open>get_task tid w = Some t\<close> r ids by (simp add: execute_task_body_def)
  qed
qed

lemma execute_task_mset_ids:
  "mset (task_ids (snd (execute_task complete tid w))) = mset (task_ids w)"
  using execute_task_body_mset_ids [of complete tid w]
  by (cases "execute_task_body complete tid w") (auto simp: execute_task_def split: sum.splits)

lemma annotate_steps_frame:
  "active_tasks (snd (annotate_steps i sts w)) = active_tasks w \<and>
   task_history (snd (annotate_steps i sts w)) = task_history w \<and>
   fs (snd (annotate_steps i sts w)) = fs w"
proof (induction sts arbitrary: i w)
  case Nil
  show ?case by simp
next
  case (Cons st sts)
  let ?w2 = "w\<lparr>clock := Suc (Suc (clock w))\<rparr>"
  show ?case
    using Cons.IH [of "Suc i" ?w2]
    by (cases "annotate_steps (Suc i) sts ?w2") (simp add: now_def Let_def)
qed

lemma plan_task_steps_body_frame:
  "active_tasks (snd (plan_task_steps_body complete loads d c w)) = active_tasks w \<and>
   task_history (snd (plan_task_steps_body complete loads d c w)) = task_history w \<and>
   fs (snd (plan_task_steps_body complete loads d c w)) = fs w"
proof (cases "complete (PlanPrompt d c)")
  case (Inl m)
  then show ?thesis by (simp add: plan_task_steps_body_def)
next
  case (Inr response)
  show ?thesis
  proof (cases "loads (clean_response response)")
    case (StepList raw)
    then show ?thesis
      using Inr annotate_steps_frame [of 1 raw w]
      by (cases "annotate_steps 1 raw w") (simp add: plan_task_steps_body_def)
  qed (simp_all add: Inr plan_task_steps_body_def)
qed

lemma plan_task_steps_frame:
  "active_tasks (snd (plan_task_steps complete loads d c w)) = active_tasks w"
  "task_history (snd (plan_task_steps complete loads d c w)) = task_history w"
  "fs (snd (plan_task_steps complete loads d c w)) = fs w"
  "\<exists>sts. fst (plan_task_steps complete loads d c w) = Inr sts"
  using plan_task_steps_body_frame [of complete loads d c w]
  by (cases "plan_task_steps_body complete loads d c w";
      auto simp: plan_task_steps_def split: sum.splits)+

lemma create_task_ids:
  "map task_id (active_tasks (snd (create_task complete loads d c w)))
     = map task_id (active_tasks w) @ [new_task_id w]"
  "task_history (snd (create_task complete loads d c w)) = task_history w"
proof -
  let ?p = "plan_task_steps complete loads d c w"
  obtain sts w1 where p: "?p = (Inr sts, w1)"
    using plan_task_steps_frame(4) [of complete loads d c w] by (cases ?p) auto
  have f: "active_tasks w1 = active_tasks w" "task_history w1 = task_history w"
    using plan_task_steps_frame(1,2) [of complete loads d c w] p by simp_all
  let ?t = "new_task (new_task_id w) d c sts (clock w1) (Suc (clock w1))"
  let ?w4 = "w1\<lparr>clock := Suc (Suc (clock w1)), active_tasks := active_tasks w1 @ [?t]\<rparr>"
  have s: "snd (create_task complete loads d c w) = snd (save_active_tasks ?w4)"
    using p by (simp add: create_task_def now_def Let_def split: prod.splits sum.splits)
  show "map task_id (active_tasks (snd (create_task complete loads d c w)))
     = map task_id (active_tasks w) @ [new_task_id w]"
    by (simp add: s save_active_tasks_frame f new_task_def)
  show "task_history (snd (create_task complete loads d c w)) = task_history w"
    by (simp add: s save_active_tasks_frame f)
qed

lemma digit_val_digit_char: "d < 10 \<Longrightarrow> digit_val (digit_char d) = d"
  by (simp add: digit_val_def digit_char_def)

lemma is_digit_digit_char: "d < 10 \<Longrightarrow> is_digit (digit_char d)"
  by (simp add: is_digit_def digit_char_def)

lemma nat_of_string_snoc: "nat_of_string (s @ [c]) = 10 * nat_of_string s + digit_val c"
  by (simp add: nat_of_string_def)

lemma nat_of_string_of_nat: "nat_of_string (string_of_nat n) = n"
proof (induction n rule: string_of_nat.induct)
  case (1 n)
  show ?case
  proof (cases "n < 10")
    case True
    then show ?thesis
      by (simp add: string_of_nat.simps [of n] nat_of_string_def digit_val_digit_char)
  next
    case False
    then show ?thesis
      using "1.IH" by (simp add: string_of_nat.simps [of n] nat_of_string_snoc digit_val_digit_char)
  qed
qed

lemma string_of_nat_inj: "string_of_nat m = string_of_nat n \<Longrightarrow> m = n"
  by (metis nat_of_string_of_nat)

lemma string_of_nat_digits: "string_of_nat n \<noteq> [] \<and> list_all is_digit (string_of_nat n)"
proof (induction n rule: string_of_nat.induct)
  case (1 n)
  show ?case
  proof (cases "n < 10")
    case True
    then show ?thesis by (simp add: string_of_nat.simps [of n] is_digit_digit_char)
  next
    case False
    then show ?thesis
      using "1.IH" by (simp add: string_of_nat.simps [of n] is_digit_digit_char)
  qed
qed

lemma fromisoformat_isoformat: "fromisoformat (isoformat d) = Some d"
  by (simp add: fromisoformat_def isoformat_def string_of_nat_digits nat_of_string_of_nat)

lemma ids_wf_mset:
  assumes "mset (task_ids w') = mset (task_ids w)" "ids_wf w"
  shows "ids_wf w'"
proof -
  have "distinct (task_ids w')" using assms by (metis ids_wf_def mset_eq_imp_distinct_iff)
  moreover have "set (task_ids w') = set (task_ids w)" using assms(1) by (rule mset_eq_setD)
  moreover have "length (task_ids w') = length (task_ids w)" using assms(1) by (rule mset_eq_length)
  ultimately show ?thesis using assms(2) by (simp add: ids_wf_def)
qed

lemma new_task_id_fresh:
  assumes "ids_wf w"
  shows "new_task_id w \<notin> set (task_ids w)"
proof
  assume "new_task_id w \<in> set (task_ids w)"
  then have "new_task_id w \<in> (\<lambda>k. ''task_'' @ string_of_nat k) ` {1..length (task_ids w)}"
    using assms unfolding ids_wf_def by blast
  then obtain k where k: "k \<le> length (task_ids w)" "new_task_id w = ''task_'' @ string_of_nat k"
    by auto
  have "length (task_ids w) = length (active_tasks w) + length (task_history w)"
    by (simp add: task_ids_def)
  then have "string_of_nat (length (task_ids w) + 1) = string_of_nat k"
    using k(2) by (simp add: new_task_id_def)
  then have "length (task_ids w) + 1 = k" by (rule string_of_nat_inj)
  then show False using k(1) by simp
qed

lemma create_task_task_ids:
  "mset (task_ids (snd (create_task complete loads d c w))) = mset (task_ids w @ [new_task_id w])"
  by (simp add: task_ids_def create_task_ids del: mset_map)

lemma ids_wf_create:
  assumes "ids_wf w"
  shows "ids_wf (snd (create_task complete loads d c w))"
proof -
  let ?w' = "snd (create_task complete loads d c w)"
  have m: "mset (task_ids ?w') = mset (task_ids w @ [new_task_id w])"
    by (rule create_task_task_ids)
  have len: "length (task_ids ?w') = Suc (length (task_ids w))"
    using mset_eq_length [OF m] by simp
  have st: "set (task_ids ?w') = insert (new_task_id w) (set (task_ids w))"
    using mset_eq_setD [OF m] by simp
  have "distinct (task_ids ?w')"
  proof -
    have "distinct (task_ids w @ [new_task_id w])"
      using assms new_task_id_fresh [OF assms] by (simp add: ids_wf_def)
    then show ?thesis using m by (metis mset_eq_imp_distinct_iff)
  qed
  moreover have "set (task_ids ?w') \<subseteq> (\<lambda>k. ''task_'' @ string_of_nat k) ` {1..length (task_ids ?w')}"
  proof -
    have n: "new_task_id w = ''task_'' @ string_of_nat (Suc (length (task_ids w)))"
      by (simp add: new_task_id_def task_ids_def)
    have "set (task_ids w) \<subseteq> (\<lambda>k. ''task_'' @ string_of_nat k) ` {1..length (task_ids w)}"
      using assms by (simp add: ids_wf_def)
    also have "\<dots> \<subseteq> (\<lambda>k. ''task_'' @ string_of_nat k) ` {1..Suc (length (task_ids w))}"
      by (rule image_mono) auto
    finally have "set (task_ids w) \<subseteq> (\<lambda>k. ''task_'' @ string_of_nat k) ` {1..Suc (length (task_ids w))}" .
    moreover have "new_task_id w \<in> (\<lambda>k. ''task_'' @ string_of_nat k) ` {1..Suc (length (task_ids w))}"
      unfolding n by (rule imageI) simp
    ultimately show ?thesis by (simp add: st len)
  qed
  ultimately show ?thesis by (simp add: ids_wf_def)
qed

lemma ids_wf_apply_operation: "ids_wf w \<Longrightarrow> ids_wf (apply_operation x w)"
proof (cases x)
  case (Create complete loads d c)
  assume "ids_wf w"
  then show ?thesis using Create by (simp add: ids_wf_create)
next
  case (Execute complete tid)
  assume "ids_wf w"
  then show ?thesis using Execute execute_task_mset_ids ids_wf_mset by simp
next
  case (Archive tid)
  assume "ids_wf w"
  then show ?thesis using Archive archive_task_mset_ids ids_wf_mset by simp
qed

lemma ids_wf_run_operations: "ids_wf w \<Longrightarrow> ids_wf (run_operations xs w)"
  by (induction xs arbitrary: w) (simp_all add: ids_wf_apply_operation)

lemma ids_wf_empty: "active_tasks w = [] \<Longrightarrow> task_history w = [] \<Longrightarrow> ids_wf w"
  by (simp add: ids_wf_def task_ids_def)

text \<open>
  What holds of the identifiers.  Start from an orchestrator with no tasks and let it
  perform any sequence of create, execute and archive operations, one after the other and
  without constructing it anew, whatever the completion client answers and whether or not
  the operations raise.  A task that \<^verbatim>\<open>create_task\<close> then returns carries the identifier
  made from the number of active and archived tasks plus one, this identifier belongs to
  no task active or archived at that moment, and afterwards all identifiers in the two
  collections are pairwise distinct.
\<close>

lemma created_task_id_unique:
  assumes "active_tasks w0 = []" and "task_history w0 = []"
    and "w = run_operations ops w0"
    and "create_task complete loads d c w = (Inr t, w')"
  shows "task_id t = new_task_id w \<and> task_id t \<notin> set (task_ids w) \<and> distinct (task_ids w')"
proof -
  have wf: "ids_wf w" using assms(1-3) by (simp add: ids_wf_empty ids_wf_run_operations)
  have w': "w' = snd (create_task complete loads d c w)" using assms(4) by simp
  have ids: "map task_id (active_tasks w') = map task_id (active_tasks w) @ [new_task_id w]"
    unfolding w' by (rule create_task_ids)
  have "t = last (active_tasks w')"
    using assms(4) by (auto simp: create_task_def now_def Let_def split: prod.splits sum.splits)
  moreover have "active_tasks w' \<noteq> []" using ids by auto
  ultimately have "task_id t = last (map task_id (active_tasks w'))" by (simp add: last_map)
  then have 1: "task_id t = new_task_id w" by (simp add: ids)
  have 2: "new_task_id w \<notin> set (task_ids w)" by (rule new_task_id_fresh [OF wf])
  have "ids_wf w'" unfolding w' by (rule ids_wf_create [OF wf])
  then have 3: "distinct (task_ids w')" by (simp add: ids_wf_def)
  show ?thesis using 1 2 3 by simp
qed

lemma created_task_id_unique_example:
  "task_id (new_task ''task_2'' ''second'' [] [] 2 3)
     \<notin> set (task_ids (run_operations [Create always_done rejects_all ''first'' []] fresh_world)) \<and>
   distinct (task_ids (snd (create_task always_done rejects_all ''second'' []
      (run_operations [Create always_done rejects_all ''first'' []] fresh_world))))"
proof -
  have a: "active_tasks fresh_world = []" and b: "task_history fresh_world = []"
    by (simp_all add: fresh_world_def)
  have h: "create_task always_done rejects_all ''second'' []
             (run_operations [Create always_done rejects_all ''first'' []] fresh_world)
           = (Inr (new_task ''task_2'' ''second'' [] [] 2 3),
              snd (create_task always_done rejects_all ''second'' []
                (run_operations [Create always_done rejects_all ''first'' []] fresh_world)))"
    by code_simp
  show ?thesis using created_task_id_unique [OF a b refl h] by blast
qed

section \<open>Creating a task from a response that is not JSON\<close>

lemma save_active_loop_snoc:
  "save_active_loop (ts @ [t]) =
     (case save_active_loop ts of
        (Inl e, ts') \<Rightarrow> (Inl e, ts' @ [t])
      | (Inr data, ts') \<Rightarrow>
          (case save_active_task t of
             (Inl e, t') \<Rightarrow> (Inl e, ts' @ [t'])
           | (Inr c, t') \<Rightarrow> (Inr (data @ [c]), ts' @ [t'])))"
proof (induction ts)
  case Nil
  show ?case by (cases "save_active_task t") (auto split: sum.splits)
next
  case (Cons x xs)
  show ?case
    using Cons.IH
    by (cases "save_active_task x"; cases "save_active_loop xs"; cases "save_active_task t")
       (auto split: sum.splits)
qed

lemma save_active_task_new:
  "save_active_task (new_task tid d c [] t1 t2) =
     (Inr ((new_task tid d c [] t1 t2)
             \<lparr>created_at := Some (IsoString (isoformat t1)),
              updated_at := Some (IsoString (isoformat t2))\<rparr>),
      new_task tid d c [] t1 t2)"
  by (simp add: save_active_task_def new_task_def)

lemma json_serializable_snoc_new:
  "json_serializable
     (data @ [(new_task tid d c [] t1 t2)
                \<lparr>created_at := Some (IsoString a), updated_at := Some (IsoString b)\<rparr>])
   = json_serializable data"
  by (simp add: json_serializable_def task_serializable_def new_task_def)

lemma plan_task_steps_unparsable:
  assumes "complete (PlanPrompt d c) = Inr response" and "loads (clean_response response) = NotJson"
  shows "plan_task_steps complete loads d c w = (Inr [], w)"
  using assms by (simp add: plan_task_steps_def plan_task_steps_body_def)

lemma create_task_unparsable_unfold:
  assumes "complete (PlanPrompt d c) = Inr response" and "loads (clean_response response) = NotJson"
  shows "create_task complete loads d c w =
     (case save_active_tasks
             (w\<lparr>clock := Suc (Suc (clock w)),
                active_tasks := active_tasks w @ [new_task (new_task_id w) d c [] (clock w) (Suc (clock w))]\<rparr>) of
        (Inl e, w5) \<Rightarrow> (Inl e, w5)
      | (Inr u, w5) \<Rightarrow> (Inr (last (active_tasks w5)), w5))"
  using plan_task_steps_unparsable [where complete = complete and loads = loads, OF assms, of w]
  by (simp add: create_task_def now_def Let_def)

text \<open>
  What holds of a plan that is not JSON.  When the completion call of the planner returns
  and the cleaned response is rejected by \<^verbatim>\<open>json.loads\<close>, the planner returns the empty
  step list without raising, and \<^verbatim>\<open>create_task\<close> appends to the active collection a task
  with status `pending' and no steps (the last element of the collection afterwards, which
  has grown by one).  If saving the active collection as it was before the call succeeds,
  then the save inside \<^verbatim>\<open>create_task\<close> succeeds as well and the call returns that task.
\<close>

lemma create_task_unparsable_plan:
  assumes "complete (PlanPrompt d c) = Inr response"
    and "loads (clean_response response) = NotJson"
  shows "plan_task_steps complete loads d c w = (Inr [], w) \<and>
         length (active_tasks (snd (create_task complete loads d c w))) = Suc (length (active_tasks w)) \<and>
         last (active_tasks (snd (create_task complete loads d c w)))
           = new_task (new_task_id w) d c [] (clock w) (Suc (clock w)) \<and>
         (fst (save_active_tasks w) = Inr () \<longrightarrow>
            fst (create_task complete loads d c w)
              = Inr (new_task (new_task_id w) d c [] (clock w) (Suc (clock w))))"
proof -
  let ?t = "new_task (new_task_id w) d c [] (clock w) (Suc (clock w))"
  let ?w4 = "w\<lparr>clock := Suc (Suc (clock w)), active_tasks := active_tasks w @ [?t]\<rparr>"
  let ?c = "?t\<lparr>created_at := Some (IsoString (isoformat (clock w))),
               updated_at := Some (IsoString (isoformat (Suc (clock w))))\<rparr>"
  note u = create_task_unparsable_unfold [where complete = complete and loads = loads, OF assms, of w]
  obtain r ts' where l: "save_active_loop (active_tasks w) = (r, ts')"
    by (cases "save_active_loop (active_tasks w)") auto
  have len: "length ts' = length (active_tasks w)"
    using save_active_loop_ids [of "active_tasks w"] l by (metis length_map snd_conv)
  have p: "plan_task_steps complete loads d c w = (Inr [], w)"
    by (rule plan_task_steps_unparsable [where complete = complete and loads = loads, OF assms])
  show ?thesis
  proof (cases r)
    case (Inl e)
    have s: "save_active_tasks ?w4 = (Inl e, ?w4\<lparr>active_tasks := ts' @ [?t]\<rparr>)"
      using l Inl by (simp add: save_active_tasks_def save_active_loop_snoc)
    have "fst (save_active_tasks w) \<noteq> Inr ()"
      using l Inl by (simp add: save_active_tasks_def)
    then show ?thesis using p len by (simp add: u s)
  next
    case (Inr data)
    obtain x d' where wr: "write_tasks_file (data @ [?c]) (fs w) = (x, d')"
      by (cases "write_tasks_file (data @ [?c]) (fs w)") auto
    have s: "save_active_tasks ?w4 = (x, ?w4\<lparr>active_tasks := ts' @ [?t], fs := d'\<rparr>)"
      using l Inr wr by (simp add: save_active_tasks_def save_active_loop_snoc save_active_task_new)
    have ok: "fst (save_active_tasks w) = Inr () \<Longrightarrow> x = Inr ()"
      using l Inr wr
      by (auto simp: save_active_tasks_def write_tasks_file_def json_serializable_snoc_new
               split: if_splits prod.splits option.splits)
    show ?thesis using p len ok by (cases x) (auto simp: u s)
  qed
qed

lemma create_task_unparsable_plan_example:
  "plan_task_steps always_done rejects_all ''reboot'' [] fresh_world = (Inr [], fresh_world) \<and>
   length (active_tasks (snd (create_task always_done rejects_all ''reboot'' [] fresh_world))) = 1 \<and>
   last (active_tasks (snd (create_task always_done rejects_all ''reboot'' [] fresh_world)))
     = new_task ''task_1'' ''reboot'' [] [] 0 1 \<and>
   fst (create_task always_done rejects_all ''reboot'' [] fresh_world)
     = Inr (new_task ''task_1'' ''reboot'' [] [] 0 1)"
proof -
  have a: "always_done (PlanPrompt ''reboot'' []) = Inr ''done''" by (simp add: always_done_def)
  have b: "rejects_all (clean_response ''done'') = NotJson" by (simp add: rejects_all_def)
  have c: "fst (save_active_tasks fresh_world) = Inr ()" by code_simp
  have i: "new_task_id fresh_world = ''task_1''" by code_simp
  have k: "clock fresh_world = 0" "active_tasks fresh_world = []" by (simp_all add: fresh_world_def)
  show ?thesis
    using create_task_unparsable_plan
            [where complete = always_done and loads = rejects_all, OF a b, of fresh_world] c i k
    by simp
qed

text \<open>
  A failure of the save propagates from \<^verbatim>\<open>create_task\<close>: here the active-tasks file
  cannot be opened for writing, \<^verbatim>\<open>_save_active_tasks\<close> re-raises and so does
  \<^verbatim>\<open>create_task\<close>.
\<close>

lemma create_task_unwritable_evaluated:
  "always_done (PlanPrompt ''reboot'' []) = Inr ''done'' \<and>
   rejects_all (clean_response ''done'') = NotJson \<and>
   fst (create_task always_done rejects_all ''reboot'' [] readonly_world)
     = Inl (OSError ''[Errno 13] Permission denied'')"
  by code_simp

text \<open>
  A save rewrites the time fields of the steps in memory as text (the copy of a task that
  it serialises shares its step dictionaries with the task), so the next save of the same
  collection calls \<^verbatim>\<open>.isoformat()\<close> on a \<^verbatim>\<open>str\<close> and raises.
\<close>

lemma create_task_after_saved_steps_evaluated:
  "fst (save_active_tasks timed_world) = Inr () \<and>
   fst (save_active_tasks (snd (save_active_tasks timed_world))) = Inl no_isoformat \<and>
   fst (create_task always_done rejects_all ''reboot'' [] (snd (save_active_tasks timed_world)))
     = Inl no_isoformat"
  by code_simp

text \<open>
  C8.  Planner degrade, evaluated on an orchestrator that has created one task with one
  step and is asked for a second task whose plan is not JSON.  The planner returns the
  empty step list without raising, as the claim says.  The claim expects \<^verbatim>\<open>create_task\<close>
  to succeed and to return the new task.  The code appends the new task to the active
  collection in memory and then raises \<^verbatim>\<open>AttributeError\<close> out of \<^verbatim>\<open>create_task\<close>: the save
  of the first \<^verbatim>\<open>create_task\<close> has left the step's time fields as text, and the save of
  the second calls \<^verbatim>\<open>.isoformat()\<close> on them.  The file still holds the first task only.
\<close>

theorem create_task_unparsable_after_saved_step_evaluated:
  "always_done (PlanPrompt ''second'' []) = Inr ''done'' \<and>
   rejects_all (clean_response ''done'') = NotJson \<and>
   plan_task_steps always_done rejects_all ''second'' [] saved_step_world
     = (Inr [], saved_step_world) \<and>
   step_statuses (active_tasks saved_step_world) = [[''pending'']] \<and>
   fst (create_task always_done rejects_all ''second'' [] saved_step_world) = Inl no_isoformat \<and>
   map task_id (active_tasks (snd (create_task always_done rejects_all ''second'' [] saved_step_world)))
     = [''task_1'', ''task_2''] \<and>
   map task_id (stored_tasks (tasks_file (fs
       (snd (create_task always_done rejects_all ''second'' [] saved_step_world)))))
     = [''task_1'']"
  by code_simp

section \<open>Identifiers after a restart\<close>

text \<open>
  C9.  Uniqueness of task identifiers, evaluated on an orchestrator constructed over the
  files of an earlier run that created a task with one step, executed it and created a
  second task.  The claim expects the task returned by \<^verbatim>\<open>create_task\<close> to carry an
  identifier that no active or archived task has.  The earlier run left the history file
  unfinished (the dump raised on the executed step and the save returned normally), the
  constructor loads an empty history and the one active task \<^verbatim>\<open>task_2\<close>, the count of
  tasks is 1, and \<^verbatim>\<open>create_task\<close> returns a task with the identifier \<^verbatim>\<open>task_2\<close> again:
  two active tasks then carry it.
\<close>

theorem create_task_duplicate_id_evaluated:
  "history_file (fs earlier_run) = Some Partial \<and>
   map task_id (task_history earlier_run) = [''task_1''] \<and>
   map task_id (active_tasks earlier_run) = [''task_2''] \<and>
   task_history restarted_world = [] \<and>
   map task_id (active_tasks restarted_world) = [''task_2''] \<and>
   fst (create_task always_done rejects_all ''third'' [] restarted_world)
     = Inr (new_task ''task_2'' ''third'' [] [] 9 10) \<and>
   map task_id (active_tasks (snd (create_task always_done rejects_all ''third'' [] restarted_world)))
     = [''task_2'', ''task_2'']"
  by code_simp

text \<open>
  C10.  Archiving twice, evaluated on the orchestrator just reached, in which two active
  tasks carry the identifier \<^verbatim>\<open>task_2\<close>.  The claim expects the second call of
  \<^verbatim>\<open>archive_task\<close> after a successful archival to leave both collections unchanged.  Both
  calls return normally; the first archives the task described as ``second'', and the
  second call archives the task described as ``third'': the active collection loses its
  last task and the history gains a second entry.
\<close>

theorem archive_task_twice_evaluated:
  "map task_id (active_tasks duplicate_world) = [''task_2'', ''task_2''] \<and>
   task_history duplicate_world = [] \<and>
   fst (archive_task ''task_2'' duplicate_world) = Inr () \<and>
   map task_description (active_tasks (snd (archive_task ''task_2'' duplicate_world))) = [''third''] \<and>
   map task_description (task_history (snd (archive_task ''task_2'' duplicate_world))) = [''second''] \<and>
   fst (archive_task ''task_2'' (snd (archive_task ''task_2'' duplicate_world))) = Inr () \<and>
   active_tasks (snd (archive_task ''task_2'' (snd (archive_task ''task_2'' duplicate_world)))) = [] \<and>
   map task_description
       (task_history (snd (archive_task ''task_2'' (snd (archive_task ''task_2'' duplicate_world)))))
     = [''second'', ''third'']"
  by code_simp

section \<open>Loading and saving the two collections\<close>

lemma load_never_raises:
  "fst (load_active_tasks w) = Inr () \<and> fst (load_task_history w) = Inr ()"
  by (cases "load_active_tasks_body w"; cases "load_task_history_body w")
     (auto simp: load_active_tasks_def load_task_history_def split: sum.splits)

lemma load_active_tasks_recovers:
  assumes "tasks_file (fs w) = Some c" and "json_load c = Inl JSONDecodeError"
    and "tasks_open_error (fs w) = None"
  shows "load_active_tasks w =
           (Inr (), w\<lparr>active_tasks := [],
                       fs := (fs w)\<lparr>backup_file := Some c, tasks_file := Some (JsonTasks [])\<rparr>\<rparr>)"
  using assms
  by (simp add: load_active_tasks_def load_active_tasks_body_def recover_active_tasks_def
        raised_def write_tasks_file_def json_serializable_def Let_def)

lemma load_task_history_no_recovery:
  assumes "history_file (fs w) = Some c" and "json_load c = Inl e"
  shows "load_task_history w = (Inr (), w\<lparr>task_history := []\<rparr>)"
  using assms by (simp add: load_task_history_def load_task_history_body_def)

text \<open>
  C5.  Recovery from a corrupt file, evaluated on a history file and on an active-tasks
  file whose text is not JSON.  Neither loader raises and both end with an empty
  collection.  The active loader renames the file to the backup and writes a new empty
  file, as the claim says of every collection.  The history loader does neither: the
  corrupt history file stays where it is and no backup exists afterwards.
\<close>

theorem load_task_history_corrupt_evaluated:
  "load_task_history corrupt_history_world = (Inr (), corrupt_history_world) \<and>
   history_file (fs (snd (load_task_history corrupt_history_world))) = Some (Corrupt ''[{task_id: '') \<and>
   backup_file (fs (snd (load_task_history corrupt_history_world))) = None \<and>
   load_active_tasks corrupt_active_world =
     (Inr (), corrupt_active_world
        \<lparr>fs := fresh_disk\<lparr>backup_file := Some (Corrupt ''[{task_id: ''),
                           tasks_file := Some (JsonTasks [])\<rparr>\<rparr>)"
  by code_simp

lemma save_task_history_never_raises: "fst (save_task_history w) = Inr ()"
  by (cases "save_task_history_body w") (auto simp: save_task_history_def split: sum.splits)

lemma save_active_tasks_unwritable:
  assumes "tasks_open_error (fs w) = Some m" and "fst (save_active_loop (active_tasks w)) = Inr data"
  shows "fst (save_active_tasks w) = Inl (OSError m)"
  using assms
  by (cases "save_active_loop (active_tasks w)")
     (simp add: save_active_tasks_def write_tasks_file_def)

text \<open>
  C6.  Save failures, evaluated on a history and on an active collection whose file cannot
  be opened for writing.  Saving the active collection raises, as the claim says of every
  collection.  Saving the history meets the same exception inside its \<^verbatim>\<open>try\<close> block and
  returns normally: the caller is not told, and the file is as it was.
\<close>

theorem save_task_history_failure_evaluated:
  "save_task_history_body unwritable_history_world
     = (Inl (OSError ''[Errno 13] Permission denied''), unwritable_history_world) \<and>
   save_task_history unwritable_history_world = (Inr (), unwritable_history_world) \<and>
   fst (save_active_tasks unwritable_active_world)
     = Inl (OSError ''[Errno 13] Permission denied'')"
  by code_simp

text \<open>
  The same happens without any fault of the disk: after a task with steps has been
  executed and archived, its steps hold \<^verbatim>\<open>datetime\<close> values that the history save does not
  convert, \<^verbatim>\<open>json.dump\<close> raises, and the save returns normally over an unfinished file.
\<close>

lemma save_task_history_after_execution_evaluated:
  "fst (save_task_history_body (snd (execute_task always_done ''task_1'' two_step_world)))
     = Inl not_serializable \<and>
   fst (save_task_history (snd (execute_task always_done ''task_1'' two_step_world))) = Inr () \<and>
   history_file (fs (snd (save_task_history (snd (execute_task always_done ''task_1'' two_step_world)))))
     = Some Partial"
  by code_simp

lemma isoformat_field_inverse:
  "isoformat_field v = Inr v' \<Longrightarrow> fromisoformat_field v' = Inr v"
  by (cases v rule: isoformat_field.cases) (auto simp: fromisoformat_isoformat)

lemma save_then_load_active_task:
  assumes "save_active_task t = (Inr c, t')"
  shows "load_active_task c = Inr t'"
proof -
  obtain c1 where c1: "isoformat_field (created_at t) = Inr c1"
    using assms by (cases "isoformat_field (created_at t)") (auto simp: save_active_task_def)
  obtain u1 where u1: "isoformat_field (updated_at t) = Inr u1"
    using assms c1 by (cases "isoformat_field (updated_at t)") (auto simp: save_active_task_def)
  obtain ok sts' where st: "save_steps (task_steps t) = (ok, sts')"
    by (cases "save_steps (task_steps t)") auto
  have t': "t' = t\<lparr>task_steps := sts'\<rparr>" and c: "c = t'\<lparr>created_at := c1, updated_at := u1\<rparr>"
    using assms c1 u1 st by (auto simp: save_active_task_def Let_def split: if_splits)
  show ?thesis
    using isoformat_field_inverse [OF c1] isoformat_field_inverse [OF u1]
    by (simp add: load_active_task_def c t')
qed

text \<open>
  C7.  Round trip, evaluated on an active collection of one task with one step whose time
  fields hold \<^verbatim>\<open>datetime\<close> values.  The save succeeds.  The task loaded back has its own
  \<^verbatim>\<open>created_at\<close> and \<^verbatim>\<open>updated_at\<close> as \<^verbatim>\<open>datetime\<close> values again, but the step's two time
  fields come back as text: the collection loaded is not the collection saved.
\<close>

theorem save_load_step_timestamps_evaluated:
  "fst (save_active_tasks timed_world) = Inr () \<and>
   active_tasks (snd (load_active_tasks (snd (save_active_tasks timed_world)))) =
     [timed_task
        \<lparr>task_steps :=
           [timed_step\<lparr>step_created_at := Some (IsoString ''2''),
                       step_updated_at := Some (IsoString ''3'')\<rparr>]\<rparr>] \<and>
   active_tasks (snd (load_active_tasks (snd (save_active_tasks timed_world)))) \<noteq> [timed_task]"
  by code_simp

end
